theory Spec2Isabelle
  imports Complex_Main
begin

section \<open>The application store (state/useAppState.ts)\<close>

text \<open>
  The repository holds two store variants that carry the boot fields: the
  TypeScript store (setBooting / setError / setSafe / retryBoot, with an
  initializeBoot that only checks the protocol) and the older JavaScript store
  (setBoot / retryBoot, with an initializeBoot that arms the watchdog itself).
  Both are modelled; definitions of the JavaScript store carry the suffix
  \<open>_js\<close>.
\<close>

datatype BootError = BOOT_TIMEOUT | WEBGL_FAIL | ASSET_TIMEOUT | INIT_ERROR

datatype Panel = About | Works | Contact

datatype Theme = Default | Dark | Light

text \<open>
  The fields of \<open>AppState\<close>. \<open>bootError = None\<close> is the source's \<open>null\<close>;
  \<open>hoveredObject\<close> is \<open>null\<close> or an object name with an optional screen
  position.
\<close>

record AppState =
  isBooting :: bool
  bootError :: "BootError option"
  safeMode :: bool
  protocolWarning :: bool
  depth :: real
  isDiving :: bool
  canResurface :: bool
  activePanel :: "Panel option"
  hoveredObject :: "(string \<times> (real \<times> real) option) option"
  showUI :: bool
  welcomeMessageShown :: bool
  lowPowerMode :: bool
  prefersReducedMotion :: bool
  isMobile :: bool
  seed :: nat
  objectsVisible :: bool
  theme :: Theme

text \<open>The initial store; the seed is \<open>Math.floor(Math.random() * 10000)\<close>, a parameter here.\<close>

definition initialState :: "nat \<Rightarrow> AppState" where
  "initialState sd =
     \<lparr> isBooting = True, bootError = None, safeMode = False, protocolWarning = False,
       depth = 0, isDiving = False, canResurface = False,
       activePanel = None, hoveredObject = None, showUI = True,
       welcomeMessageShown = False,
       lowPowerMode = False, prefersReducedMotion = False, isMobile = False,
       seed = sd, objectsVisible = True, theme = Default \<rparr>"

subsection \<open>Boot actions of the TypeScript store\<close>

definition setBooting :: "bool \<Rightarrow> AppState \<Rightarrow> AppState" where
  "setBooting booting s = s\<lparr>isBooting := booting\<rparr>"

definition setError :: "BootError option \<Rightarrow> AppState \<Rightarrow> AppState" where
  "setError err s = s\<lparr>bootError := err\<rparr>"

definition setSafe :: "bool \<Rightarrow> AppState \<Rightarrow> AppState" where
  "setSafe safe s = s\<lparr>safeMode := safe\<rparr>"

definition setProtocolWarning :: "bool \<Rightarrow> AppState \<Rightarrow> AppState" where
  "setProtocolWarning warning s = s\<lparr>protocolWarning := warning\<rparr>"

text \<open>
  \<open>initializeBoot\<close> of the TypeScript store: the protocol check only (the rest
  is development logging). The argument is \<open>window.location.protocol\<close>.
\<close>

definition initializeBoot :: "string \<Rightarrow> AppState \<Rightarrow> AppState" where
  "initializeBoot protocol s =
     (if protocol = ''file:'' then s\<lparr>protocolWarning := True\<rparr> else s)"

definition retryBoot :: "string \<Rightarrow> AppState \<Rightarrow> AppState" where
  "retryBoot protocol s =
     initializeBoot protocol (s\<lparr>isBooting := True, bootError := None, safeMode := False\<rparr>)"

subsection \<open>Boot actions of the JavaScript store\<close>

text \<open>
  \<open>setBoot(isBooting, bootError = null, safeMode = null)\<close>: a \<open>null\<close> third
  argument keeps the current safe-mode flag.
\<close>

definition setBoot :: "bool \<Rightarrow> BootError option \<Rightarrow> bool option \<Rightarrow> AppState \<Rightarrow> AppState" where
  "setBoot booting err safe s =
     s\<lparr>isBooting := booting, bootError := err,
       safeMode := (case safe of Some v \<Rightarrow> v | None \<Rightarrow> safeMode s)\<rparr>"

definition retryBoot_js :: "AppState \<Rightarrow> AppState" where
  "retryBoot_js s = s\<lparr>isBooting := True, bootError := None, safeMode := False\<rparr>"

text \<open>
  The "Continue in Safe Mode" button of the boot loader:
  \<open>onClick={() => useAppState.getState().setBoot(false, null, false)}\<close>.
\<close>

definition continueInSafeMode :: "AppState \<Rightarrow> AppState" where
  "continueInSafeMode s = setBoot False None (Some False) s"

subsection \<open>The boot phase read off the store\<close>

text \<open>
  The store has no phase field. The loader is shown while \<open>isBooting\<close>; the
  error panel with its retry and continue buttons is shown while \<open>bootError\<close>
  is set; otherwise the scene runs.
\<close>

datatype BootPhase = Booting | Running | Degraded

definition phase :: "AppState \<Rightarrow> BootPhase" where
  "phase s = (if isBooting s then Booting
              else if bootError s \<noteq> None then Degraded else Running)"

subsection \<open>Completion and failure signals\<close>

text \<open>
  The completion signal is \<open>setBooting(false)\<close> in Scene.tsx and
  \<open>setBoot(false)\<close> in the JavaScript App; the failure signal is
  \<open>setSafe(true); setError(e); setBooting(false)\<close>, respectively
  \<open>setBoot(false, e, true)\<close>.
\<close>

definition bootComplete :: "AppState \<Rightarrow> AppState" where
  "bootComplete s = setBooting False s"

definition bootFail :: "BootError \<Rightarrow> AppState \<Rightarrow> AppState" where
  "bootFail e s = setBooting False (setError (Some e) (setSafe True s))"

definition bootComplete_js :: "AppState \<Rightarrow> AppState" where
  "bootComplete_js s = setBoot False None None s"

definition bootFail_js :: "BootError \<Rightarrow> AppState \<Rightarrow> AppState" where
  "bootFail_js e s = setBoot False (Some e) (Some True) s"

datatype Signal = Complete | Fail BootError

fun signal :: "Signal \<Rightarrow> AppState \<Rightarrow> AppState" where
  "signal Complete s = bootComplete s"
| "signal (Fail e) s = bootFail e s"

fun signal_js :: "Signal \<Rightarrow> AppState \<Rightarrow> AppState" where
  "signal_js Complete s = bootComplete_js s"
| "signal_js (Fail e) s = bootFail_js e s"

text \<open>A sequence of signals, delivered in order.\<close>

fun signals :: "Signal list \<Rightarrow> AppState \<Rightarrow> AppState" where
  "signals [] s = s"
| "signals (c # cs) s = signals cs (signal c s)"

fun signals_js :: "Signal list \<Rightarrow> AppState \<Rightarrow> AppState" where
  "signals_js [] s = s"
| "signals_js (c # cs) s = signals_js cs (signal_js c s)"

text \<open>The error of the last failure signal in a sequence, if there is one.\<close>

fun lastFail :: "Signal list \<Rightarrow> BootError option" where
  "lastFail [] = None"
| "lastFail (Complete # cs) = lastFail cs"
| "lastFail (Fail e # cs) = (case lastFail cs of None \<Rightarrow> Some e | Some e' \<Rightarrow> Some e')"

section \<open>The scene, its watchdog and a virtual clock (components/Scene.tsx)\<close>

text \<open>
  The Scene component holds two refs and subscribes to the store. Time is a
  virtual clock in milliseconds. \<open>watchdogTimer\<close> is the due time of the pending
  \<open>setTimeout\<close> (\<open>None\<close> once it has fired or was cleared), \<open>watchdogRef\<close> says
  whether \<open>watchdogRef.current\<close> is non-null, \<open>watchdogCleanup\<close> whether the
  last run of the first effect returned its cleanup function, \<open>subscribed\<close>
  whether the \<open>isBooting\<close> subscription of the second effect is installed.
\<close>

record Sys =
  app :: AppState
  clock :: nat
  watchdogTimer :: "nat option"
  watchdogRef :: bool
  initGuardRef :: bool
  watchdogCleanup :: bool
  subscribed :: bool

definition bootSys :: "nat \<Rightarrow> Sys" where
  "bootSys sd = \<lparr> app = initialState sd, clock = 0, watchdogTimer = None,
                   watchdogRef = False, initGuardRef = False, watchdogCleanup = False,
                   subscribed = False \<rparr>"

text \<open>
  The subscription listener: it is called when the selected \<open>isBooting\<close> value
  has changed, and clears the watchdog when the new value is false and the ref
  is set.
\<close>

definition notify :: "bool \<Rightarrow> Sys \<Rightarrow> Sys" where
  "notify previous sys =
     (if subscribed sys \<and> isBooting (app sys) \<noteq> previous
         \<and> \<not> isBooting (app sys) \<and> watchdogRef sys
      then sys\<lparr>watchdogTimer := None, watchdogRef := False\<rparr>
      else sys)"

text \<open>One \<open>set\<close> call on the store, followed by the listeners.\<close>

definition dispatch :: "(AppState \<Rightarrow> AppState) \<Rightarrow> Sys \<Rightarrow> Sys" where
  "dispatch f sys = notify (isBooting (app sys)) (sys\<lparr>app := f (app sys)\<rparr>)"

text \<open>The callback of the 8-second timer.\<close>

definition watchdogCallback :: "Sys \<Rightarrow> Sys" where
  "watchdogCallback sys =
     (if isBooting (app sys)
      then dispatch (setBooting False)
             (dispatch (setError (Some BOOT_TIMEOUT)) (dispatch (setSafe True) sys))
      else sys)"

text \<open>
  The first effect: the init guard, then \<open>setTimeout(..., 8000)\<close>. When the
  guard is already set the effect returns at once and registers no cleanup.
\<close>

definition armWatchdog :: "Sys \<Rightarrow> Sys" where
  "armWatchdog sys =
     (if initGuardRef sys then sys\<lparr>watchdogCleanup := False\<rparr>
      else sys\<lparr>initGuardRef := True, watchdogTimer := Some (clock sys + 8000),
               watchdogRef := True, watchdogCleanup := True\<rparr>)"

text \<open>
  The cleanup returned by the first effect, if it returned one:
  \<open>clearTimeout\<close> and a null ref, when the ref is set.
\<close>

definition cleanupWatchdog :: "Sys \<Rightarrow> Sys" where
  "cleanupWatchdog sys =
     (if watchdogCleanup sys \<and> watchdogRef sys
      then sys\<lparr>watchdogTimer := None, watchdogRef := False\<rparr> else sys)"

text \<open>The second effect installs the \<open>isBooting\<close> subscription; its cleanup removes it.\<close>

definition subscribeBooting :: "Sys \<Rightarrow> Sys" where
  "subscribeBooting sys = sys\<lparr>subscribed := True\<rparr>"

definition unsubscribeBooting :: "Sys \<Rightarrow> Sys" where
  "unsubscribeBooting sys = sys\<lparr>subscribed := False\<rparr>"

definition runEffects :: "Sys \<Rightarrow> Sys" where
  "runEffects sys = subscribeBooting (armWatchdog sys)"

definition runCleanups :: "Sys \<Rightarrow> Sys" where
  "runCleanups sys = unsubscribeBooting (cleanupWatchdog sys)"

text \<open>
  Mounting the scene runs its effects. The application is rendered inside
  \<open>React.StrictMode\<close> (main.jsx): in a development build React then runs the
  effects, their cleanups and the effects again, and the refs keep their
  values in between. The flag says whether that cycle takes place.
\<close>

definition mountScene :: "bool \<Rightarrow> Sys \<Rightarrow> Sys" where
  "mountScene strict sys =
     (if strict then runEffects (runCleanups (runEffects sys)) else runEffects sys)"

definition unmountScene :: "Sys \<Rightarrow> Sys" where
  "unmountScene sys = runCleanups sys"

text \<open>
  The clock moves to \<open>t\<close>; a pending timer that is due by then fires at its due
  time. The clock never moves backwards.
\<close>

definition advanceTo :: "nat \<Rightarrow> Sys \<Rightarrow> Sys" where
  "advanceTo t sys =
     (if t < clock sys then sys
      else (case watchdogTimer sys of
              None \<Rightarrow> sys\<lparr>clock := t\<rparr>
            | Some due \<Rightarrow>
                if due \<le> t
                then (watchdogCallback (sys\<lparr>clock := max (clock sys) due, watchdogTimer := None\<rparr>))
                       \<lparr>clock := t\<rparr>
                else sys\<lparr>clock := t\<rparr>))"

text \<open>The retry button calls the store's \<open>retryBoot\<close>; nothing in Scene reacts to it.\<close>

definition retry :: "string \<Rightarrow> Sys \<Rightarrow> Sys" where
  "retry protocol sys = dispatch (retryBoot protocol) sys"

subsection \<open>The watchdog of the JavaScript store\<close>

text \<open>
  In the JavaScript store \<open>initializeBoot\<close> itself arms a timer and installs a
  subscription that clears that timer and unsubscribes as soon as \<open>isBooting\<close>
  becomes false. \<open>timers_js\<close> lists the due times of the pending timers, oldest
  first.
\<close>

record Sys_js =
  app_js :: AppState
  clock_js :: nat
  timers_js :: "nat list"

definition dispatch_js :: "(AppState \<Rightarrow> AppState) \<Rightarrow> Sys_js \<Rightarrow> Sys_js" where
  "dispatch_js f sys =
     (let previous = isBooting (app_js sys); sys' = sys\<lparr>app_js := f (app_js sys)\<rparr>
      in if isBooting (app_js sys') \<noteq> previous \<and> \<not> isBooting (app_js sys')
         then sys'\<lparr>timers_js := []\<rparr> else sys')"

definition initializeBoot_js :: "string \<Rightarrow> Sys_js \<Rightarrow> Sys_js" where
  "initializeBoot_js protocol sys =
     (let sys' = (if protocol = ''file:''
                  then dispatch_js (\<lambda>s. s\<lparr>protocolWarning := True\<rparr>) sys else sys)
      in sys'\<lparr>timers_js := timers_js sys' @ [clock_js sys' + 8000]\<rparr>)"

definition watchdogCallback_js :: "Sys_js \<Rightarrow> Sys_js" where
  "watchdogCallback_js sys =
     (if isBooting (app_js sys)
      then dispatch_js
             (\<lambda>s. s\<lparr>safeMode := True, bootError := Some BOOT_TIMEOUT, isBooting := False\<rparr>) sys
      else sys)"

text \<open>Firing the timers of a list that are due by \<open>t\<close>; a callback may clear the rest.\<close>

fun fireDue_js :: "nat \<Rightarrow> nat \<Rightarrow> Sys_js \<Rightarrow> Sys_js" where
  "fireDue_js 0 t sys = sys"
| "fireDue_js (Suc n) t sys =
     (case timers_js sys of
        [] \<Rightarrow> sys
      | due # rest \<Rightarrow>
          if due \<le> t
          then fireDue_js n t
                 (watchdogCallback_js (sys\<lparr>clock_js := max (clock_js sys) due, timers_js := rest\<rparr>))
          else sys)"

definition advanceTo_js :: "nat \<Rightarrow> Sys_js \<Rightarrow> Sys_js" where
  "advanceTo_js t sys =
     (if t < clock_js sys then sys
      else (fireDue_js (length (timers_js sys)) t sys)\<lparr>clock_js := t\<rparr>)"

section \<open>The resource loader guard (utils/withTimeout.ts)\<close>

text \<open>
  A promise is described by when it settles relative to the event loop turn in
  which \<open>withTimeout\<close> is called: already settled (its reaction then runs as a
  microtask, before any timer task), settling in a later task at a time in
  milliseconds after the call, or never. For a promise that settles in a task,
  the flag says whether that task runs before a timer task due at the same
  time.
\<close>

datatype jserror = Error (message: string)

datatype 'a settled = Fulfilled 'a | Rejected jserror

datatype 'a promise = Settled "'a settled" | SettlesAt nat bool "'a settled" | NeverSettles

datatype 'a event = OpSettles "'a settled" | TimerFires

text \<open>
  The promise returned by \<open>withTimeout\<close>: its outcome (\<open>None\<close> while pending)
  and whether its timer is still pending.
\<close>

record 'a guard =
  outcome :: "'a settled option"
  timerPending :: bool

text \<open>\<open>resolve\<close> and \<open>reject\<close> have no effect on a promise that is already settled.\<close>

definition settle :: "'a settled \<Rightarrow> 'a guard \<Rightarrow> 'a guard" where
  "settle r g = (case outcome g of None \<Rightarrow> g\<lparr>outcome := Some r\<rparr> | Some old \<Rightarrow> g)"

definition clearTimeout :: "'a guard \<Rightarrow> 'a guard" where
  "clearTimeout g = g\<lparr>timerPending := False\<rparr>"

text \<open>
  The three callbacks of \<open>withTimeout\<close>: the timer's, the \<open>then\<close> and the
  \<open>catch\<close>. A cleared timer does not fire.
\<close>

fun withTimeout_step :: "string \<Rightarrow> 'a guard \<Rightarrow> 'a event \<Rightarrow> 'a guard" where
  "withTimeout_step label g TimerFires =
     (if timerPending g then settle (Rejected (Error label)) (g\<lparr>timerPending := False\<rparr>) else g)"
| "withTimeout_step label g (OpSettles (Fulfilled result)) = settle (Fulfilled result) (clearTimeout g)"
| "withTimeout_step label g (OpSettles (Rejected err)) = settle (Rejected err) (clearTimeout g)"

text \<open>
  \<open>withTimeout\<close> hands \<open>ms\<close> to \<open>setTimeout\<close> unchecked, and the delay the timer
  gets is the runtime's reading of it (\<open>ms\<close> is a whole number of milliseconds
  here). A browser converts the delay to a signed 32-bit integer, wrapping
  modulo \<open>2^32\<close>, and raises the result to a floor: 0 by the HTML standard, 4 in
  a timer nested more than five levels deep, 1 in engines that keep a minimum
  of one millisecond. Node replaces every delay that is not between 1 and
  \<open>2^31 - 1\<close> by 1.
\<close>

datatype Runtime = Browser nat | Node

definition toInt32 :: "int \<Rightarrow> int" where
  "toInt32 ms = (ms + 2147483648) mod 4294967296 - 2147483648"

definition timerDelay :: "Runtime \<Rightarrow> int \<Rightarrow> nat" where
  "timerDelay rt ms =
     (case rt of
        Browser least \<Rightarrow> nat (max (int least) (toInt32 ms))
      | Node \<Rightarrow> if 1 \<le> ms \<and> ms \<le> 2147483647 then nat ms else 1)"

text \<open>The smallest delay a runtime arms a timer with.\<close>

definition minDelay :: "Runtime \<Rightarrow> nat" where
  "minDelay rt = (case rt of Browser least \<Rightarrow> least | Node \<Rightarrow> 1)"

text \<open>
  The order in which the event loop runs the callbacks: the timer's task runs
  \<open>timerDelay\<close> milliseconds after the call.
\<close>

definition eventOrder :: "Runtime \<Rightarrow> 'a promise \<Rightarrow> int \<Rightarrow> 'a event list" where
  "eventOrder rt p ms =
     (case p of
        Settled r \<Rightarrow> [OpSettles r, TimerFires]
      | SettlesAt t first r \<Rightarrow>
          if t < timerDelay rt ms \<or> (t = timerDelay rt ms \<and> first)
          then [OpSettles r, TimerFires] else [TimerFires, OpSettles r]
      | NeverSettles \<Rightarrow> [TimerFires])"

definition withTimeout_run :: "string \<Rightarrow> 'a event list \<Rightarrow> 'a settled option" where
  "withTimeout_run label evs =
     outcome (foldl (withTimeout_step label) \<lparr>outcome = None, timerPending = True\<rparr> evs)"

definition withTimeout :: "Runtime \<Rightarrow> 'a promise \<Rightarrow> int \<Rightarrow> string \<Rightarrow> 'a settled option" where
  "withTimeout rt p ms label = withTimeout_run label (eventOrder rt p ms)"

section \<open>Guarded asset loads (components/objects/safeLoadGLTF.ts)\<close>

text \<open>
  \<open>useGLTF.preload(path)\<close> is called synchronously inside the promise
  executor, so the promise handed to \<open>withTimeout\<close> is already settled:
  rejected with what \<open>preload\<close> threw, fulfilled otherwise.
\<close>

definition preloadPromise :: "(string \<Rightarrow> jserror option) \<Rightarrow> string \<Rightarrow> unit promise" where
  "preloadPromise preload path =
     (case preload path of None \<Rightarrow> Settled (Fulfilled ()) | Some e \<Rightarrow> Settled (Rejected e))"

text \<open>
  \<open>safePreloadGLTF\<close>: the guarded await and the catch block. The argument
  \<open>preload\<close> says what \<open>useGLTF.preload\<close> throws for a path, if anything. The
  result is the boolean the function resolves to and the store it leaves;
  \<open>None\<close> stands for an await that never returns.
\<close>

definition safePreloadGLTF ::
  "Runtime \<Rightarrow> (string \<Rightarrow> jserror option) \<Rightarrow> string \<Rightarrow> int \<Rightarrow> AppState
     \<Rightarrow> (bool \<times> AppState) option" where
  "safePreloadGLTF rt preload path timeoutMs s =
     (case withTimeout rt (preloadPromise preload path) timeoutMs ''ASSET_TIMEOUT'' of
        None \<Rightarrow> None
      | Some (Fulfilled u) \<Rightarrow> Some (True, s)
      | Some (Rejected err) \<Rightarrow>
          Some (False,
                setSafe True
                  (setError (Some (if message err = ''ASSET_TIMEOUT'' then ASSET_TIMEOUT
                                   else INIT_ERROR)) s)))"

text \<open>
  \<open>Promise.allSettled(paths.map(path => safePreloadGLTF(path, individualTimeout)))\<close>:
  every load runs, whatever the others do, and the results come back in the
  order of the paths. All the guarded promises are settled from the start, so
  the catch blocks run in the order of the paths too, and the store is threaded
  in that order.
\<close>

fun preloadEach ::
  "Runtime \<Rightarrow> (string \<Rightarrow> jserror option) \<Rightarrow> string list \<Rightarrow> int \<Rightarrow> AppState
     \<Rightarrow> (bool list \<times> AppState) option" where
  "preloadEach rt preload [] timeoutMs s = Some ([], s)"
| "preloadEach rt preload (path # paths) timeoutMs s =
     (case safePreloadGLTF rt preload path timeoutMs s of
        None \<Rightarrow> None
      | Some (ok, s') \<Rightarrow>
          (case preloadEach rt preload paths timeoutMs s' of
             None \<Rightarrow> None
           | Some (oks, s'') \<Rightarrow> Some (ok # oks, s'')))"

text \<open>
  \<open>batchPreloadGLTF\<close>: a path goes to \<open>success\<close> when its result is fulfilled
  with \<open>true\<close>, to \<open>failed\<close> otherwise.
\<close>

definition batchPreloadGLTF ::
  "Runtime \<Rightarrow> (string \<Rightarrow> jserror option) \<Rightarrow> string list \<Rightarrow> int \<Rightarrow> bool \<Rightarrow> AppState
     \<Rightarrow> ((string list \<times> string list) \<times> AppState) option" where
  "batchPreloadGLTF rt preload paths individualTimeout allowPartialFailure s =
     (case preloadEach rt preload paths individualTimeout s of
        None \<Rightarrow> None
      | Some (results, s') \<Rightarrow>
          (let success = map fst (filter snd (zip paths results));
               failed = map fst (filter (\<lambda>pr. \<not> snd pr) (zip paths results))
           in Some ((success, failed),
                    (if length success = 0 \<and> \<not> allowPartialFailure
                     then setError (Some ASSET_TIMEOUT) (setSafe True s') else s'))))"

text \<open>
  The outcome of one guarded load on its own: the boolean that
  \<open>safePreloadGLTF\<close> resolves to, if it resolves.
\<close>

definition loadOutcome ::
  "Runtime \<Rightarrow> (string \<Rightarrow> jserror option) \<Rightarrow> int \<Rightarrow> AppState \<Rightarrow> string \<Rightarrow> bool option" where
  "loadOutcome rt preload timeoutMs s path =
     map_option fst (safePreloadGLTF rt preload path timeoutMs s)"

section \<open>The renderer check (handleCanvasCreated in components/Scene.tsx)\<close>

text \<open>A call into the rendering context either returns or throws.\<close>

datatype 'a js = Returns 'a | Throws jserror

text \<open>
  What the handler sees of the context it gets: whether \<open>clearColor\<close> and
  \<open>clear\<close> throw, what \<open>getExtension\<close> returns (truthy or not) and whether
  \<open>getParameter\<close> throws.
\<close>

record WebGLContext =
  clearColor :: "unit js"
  clear :: "unit js"
  getExtension :: "bool js"
  getParameter :: "unit js"

text \<open>
  The argument of \<open>onCreated\<close>: \<open>glHasGetContext\<close> is \<open>gl && gl.getContext\<close>,
  \<open>getContext\<close> the result of \<open>gl.getContext()\<close> (\<open>None\<close> for a falsy one),
  \<open>cameraValid\<close> is
  \<open>camera && typeof camera.updateProjectionMatrix === 'function'\<close>.
\<close>

record Canvas =
  glHasGetContext :: bool
  getContext :: "WebGLContext option js"
  cameraValid :: bool

text \<open>The checks of the try block, up to the call of \<open>setBooting(false)\<close>.\<close>

definition canvasChecks :: "bool \<Rightarrow> Canvas \<Rightarrow> unit js" where
  "canvasChecks dev c =
     (if \<not> glHasGetContext c then Throws (Error ''No WebGL context available'')
      else case getContext c of
        Throws e \<Rightarrow> Throws e
      | Returns None \<Rightarrow> Throws (Error ''Failed to get WebGL context'')
      | Returns (Some ctx) \<Rightarrow>
          (case clearColor ctx of
             Throws e \<Rightarrow> Throws e
           | Returns u \<Rightarrow>
          (case clear ctx of
             Throws e \<Rightarrow> Throws e
           | Returns u \<Rightarrow>
          (case getExtension ctx of
             Throws e \<Rightarrow> Throws e
           | Returns extension \<Rightarrow>
          (case (if dev \<and> extension then getParameter ctx else Returns ()) of
             Throws e \<Rightarrow> Throws e
           | Returns u \<Rightarrow>
               if \<not> cameraValid c then Throws (Error ''Camera initialization failed'')
               else Returns ())))))"

definition handleCanvasCreated :: "bool \<Rightarrow> Canvas \<Rightarrow> AppState \<Rightarrow> AppState" where
  "handleCanvasCreated dev c s =
     (case canvasChecks dev c of
        Returns u \<Rightarrow> setBooting False s
      | Throws error \<Rightarrow> setBooting False (setError (Some WEBGL_FAIL) (setSafe True s)))"

section \<open>Instance counts of the visual subsystems\<close>

text \<open>\<open>mainObjectCount\<close> and \<open>decorativeCount\<close> of SafeObjectsCluster.\<close>

definition mainObjectCount :: "AppState \<Rightarrow> nat" where
  "mainObjectCount s =
     (if safeMode s then 2 else (if lowPowerMode s then 2 else (if isMobile s then 3 else 3)))"

definition decorativeCount :: "AppState \<Rightarrow> nat" where
  "decorativeCount s =
     (if safeMode s then 3 else (if lowPowerMode s then 5 else (if isMobile s then 8 else 12)))"

text \<open>\<open>bubbleCount\<close> of EnhancedBubbleSystem.\<close>

definition bubbleCount :: "AppState \<Rightarrow> nat" where
  "bubbleCount s = (if lowPowerMode s then 30 else (if isMobile s then 60 else 150))"

text \<open>The fields of the store that belong neither to the boot system nor to the protocol warning.\<close>

definition uiFields ::
  "AppState \<Rightarrow> real \<times> bool \<times> bool \<times> Panel option \<times> (string \<times> (real \<times> real) option) option
     \<times> bool \<times> bool \<times> bool \<times> bool \<times> bool \<times> nat \<times> bool \<times> Theme" where
  "uiFields s =
     (depth s, isDiving s, canResurface s, activePanel s, hoveredObject s, showUI s,
      welcomeMessageShown s, lowPowerMode s, prefersReducedMotion s, isMobile s, seed s,
      objectsVisible s, theme s)"

text \<open>A \<open>preload\<close> for the examples: it throws for the chest and for nothing else.\<close>

definition examplePreload :: "string \<Rightarrow> jserror option" where
  "examplePreload path =
     (if path = ''/models/chest.glb'' then Some (Error ''Could not load /models/chest.glb'')
      else None)"

text \<open>A context on which every call returns, and one whose \<open>clear\<close> throws.\<close>

definition goodContext :: WebGLContext where
  "goodContext = \<lparr> clearColor = Returns (), clear = Returns (), getExtension = Returns False,
                    getParameter = Returns () \<rparr>"

definition lostContext :: WebGLContext where
  "lostContext = goodContext\<lparr>clear := Throws (Error ''context lost'')\<rparr>"

section \<open>Signals out of Booting\<close>

lemmas store_defs = setBooting_def setError_def setSafe_def setBoot_def
  bootComplete_def bootFail_def bootComplete_js_def bootFail_js_def

lemma signals_isBooting:
  "cs \<noteq> [] \<Longrightarrow> isBooting (signals cs s) = False"
proof (induction cs arbitrary: s)
  case Nil
  then show ?case by simp
next
  case (Cons c cs)
  show ?case
  proof (cases cs)
    case Nil
    then show ?thesis
      by (cases c) (simp_all add: store_defs)
  next
    case (Cons d ds)
    then show ?thesis using Cons.IH by simp
  qed
qed

lemma signals_bootError:
  "bootError (signals cs s) = (case lastFail cs of None \<Rightarrow> bootError s | Some e \<Rightarrow> Some e)"
proof (induction cs arbitrary: s)
  case Nil
  then show ?case by simp
next
  case (Cons c cs)
  then show ?case
    by (cases c) (simp_all add: store_defs split: option.splits)
qed

lemma signals_safeMode:
  "safeMode (signals cs s) = (lastFail cs \<noteq> None \<or> safeMode s)"
proof (induction cs arbitrary: s)
  case Nil
  then show ?case by simp
next
  case (Cons c cs)
  then show ?case
    by (cases c) (auto simp add: store_defs split: option.splits)
qed

lemma signals_js_isBooting:
  "cs \<noteq> [] \<Longrightarrow> isBooting (signals_js cs s) = False"
proof (induction cs arbitrary: s)
  case Nil
  then show ?case by simp
next
  case (Cons c cs)
  show ?case
  proof (cases cs)
    case Nil
    then show ?thesis
      by (cases c) (simp_all add: store_defs)
  next
    case (Cons d ds)
    then show ?thesis using Cons.IH by simp
  qed
qed

lemma signals_js_safeMode:
  "safeMode (signals_js cs s) = (lastFail cs \<noteq> None \<or> safeMode s)"
proof (induction cs arbitrary: s)
  case Nil
  then show ?case by simp
next
  case (Cons c cs)
  then show ?case
    by (cases c) (auto simp add: store_defs split: option.splits)
qed

lemma signals_js_bootError:
  "cs \<noteq> [] \<Longrightarrow>
   bootError (signals_js cs s) = (case last cs of Complete \<Rightarrow> None | Fail e \<Rightarrow> Some e)"
proof (induction cs arbitrary: s)
  case Nil
  then show ?case by simp
next
  case (Cons c cs)
  show ?case
  proof (cases cs)
    case Nil
    then show ?thesis
      by (cases c) (simp_all add: store_defs)
  next
    case (Cons d ds)
    then show ?thesis using Cons.IH by simp
  qed
qed

text \<open>
  Claim C1, as stated: from Booting, only the first of a sequence of
  complete() / fail(e) calls changes the boot state. The store's setters check
  nothing: a completion followed by a failure ends in Degraded, while the
  completion alone ends in Running.
\<close>

theorem first_signal_wins_counterexample:
  "phase (signals [Complete, Fail WEBGL_FAIL] (initialState 0))
     \<noteq> phase (signals [Complete] (initialState 0))"
  by (simp add: phase_def initialState_def store_defs)

text \<open>
  Claim C1, amended: after any non-empty sequence of completion and failure
  signals the store is out of Booting, as after the first signal alone, in
  both stores. The other two boot fields are written by every later failure:
  safe mode is on iff it was on before or some failure was signalled; the boot
  error is that of the last failure (TypeScript store; unchanged when there
  was none) or that of the last signal (JavaScript store; none after a
  completion).
\<close>

theorem signals_unguarded:
  assumes "cs \<noteq> []"
  shows "isBooting (signals cs s) = False
       \<and> isBooting (signals_js cs s) = False
       \<and> safeMode (signals cs s) = (lastFail cs \<noteq> None \<or> safeMode s)
       \<and> safeMode (signals_js cs s) = (lastFail cs \<noteq> None \<or> safeMode s)
       \<and> bootError (signals cs s) = (case lastFail cs of None \<Rightarrow> bootError s | Some e \<Rightarrow> Some e)
       \<and> bootError (signals_js cs s) = (case last cs of Complete \<Rightarrow> None | Fail e \<Rightarrow> Some e)"
  using assms signals_isBooting signals_js_isBooting signals_safeMode signals_js_safeMode
    signals_bootError signals_js_bootError by simp

theorem signals_unguarded_witness:
  "[Complete, Fail WEBGL_FAIL, Complete] \<noteq> []
   \<and> isBooting (signals [Complete, Fail WEBGL_FAIL, Complete] (initialState 0)) = False
   \<and> safeMode (signals [Complete, Fail WEBGL_FAIL, Complete] (initialState 0)) = True
   \<and> bootError (signals [Complete, Fail WEBGL_FAIL, Complete] (initialState 0)) = Some WEBGL_FAIL
   \<and> bootError (signals_js [Complete, Fail WEBGL_FAIL, Complete] (initialState 0)) = None"
  using signals_unguarded [of "[Complete, Fail WEBGL_FAIL, Complete]" "initialState 0"]
  by (simp add: initialState_def)

section \<open>The watchdog\<close>

lemma watchdogCallback_not_booting:
  "\<not> isBooting (app sys) \<Longrightarrow> watchdogCallback sys = sys"
  by (simp add: watchdogCallback_def)

lemma watchdogCallback_booting:
  "isBooting (app sys) \<Longrightarrow> app (watchdogCallback sys) = bootFail BOOT_TIMEOUT (app sys)"
  by (simp add: watchdogCallback_def dispatch_def notify_def store_defs)

lemma watchdogCallback_timer:
  "watchdogTimer sys = None \<Longrightarrow> watchdogTimer (watchdogCallback sys) = None"
  by (simp add: watchdogCallback_def dispatch_def notify_def store_defs)

lemmas scene_defs = mountScene_def runEffects_def runCleanups_def armWatchdog_def
  cleanupWatchdog_def subscribeBooting_def unsubscribeBooting_def

text \<open>A single run of the effects arms the timer 8000 ms ahead.\<close>

lemma mountScene_once:
  "\<not> initGuardRef sys \<Longrightarrow>
   watchdogTimer (mountScene False sys) = Some (clock sys + 8000)
   \<and> watchdogRef (mountScene False sys) \<and> initGuardRef (mountScene False sys)
   \<and> subscribed (mountScene False sys)
   \<and> app (mountScene False sys) = app sys \<and> clock (mountScene False sys) = clock sys"
  by (simp add: scene_defs)

text \<open>
  The development cycle of effects, cleanups and effects leaves no timer: the
  cleanup clears it and the init guard stops the second run.
\<close>

lemma mountScene_strict:
  "\<not> initGuardRef sys \<Longrightarrow>
   watchdogTimer (mountScene True sys) = None
   \<and> \<not> watchdogRef (mountScene True sys) \<and> initGuardRef (mountScene True sys)
   \<and> subscribed (mountScene True sys)
   \<and> app (mountScene True sys) = app sys \<and> clock (mountScene True sys) = clock sys"
  by (simp add: scene_defs)

text \<open>
  A pending timer, whatever happened to the store since it was armed: when its
  due time passes while the store is Booting, the store gets exactly the
  failure signal for BOOT_TIMEOUT and the timer is gone; when the store is no
  longer Booting, the clock changes nothing in the store.
\<close>

lemma watchdog_fires_when_due:
  "watchdogTimer sys = Some due \<Longrightarrow> due \<le> t \<Longrightarrow> clock sys \<le> t \<Longrightarrow> isBooting (app sys) \<Longrightarrow>
   app (advanceTo t sys) = bootFail BOOT_TIMEOUT (app sys)
   \<and> watchdogTimer (advanceTo t sys) = None"
  by (simp add: advanceTo_def watchdogCallback_booting watchdogCallback_timer)

lemma watchdog_not_due:
  "watchdogTimer sys = Some due \<Longrightarrow> t < due \<Longrightarrow>
   app (advanceTo t sys) = app sys \<and> watchdogTimer (advanceTo t sys) = Some due"
  by (simp add: advanceTo_def)

lemma watchdog_late_firing_noop:
  "\<not> isBooting (app sys) \<Longrightarrow> app (advanceTo t sys) = app sys"
  by (simp add: advanceTo_def watchdogCallback_not_booting split: option.splits)

lemma advanceTo_no_timer:
  "watchdogTimer sys = None \<Longrightarrow>
   app (advanceTo t sys) = app sys \<and> watchdogTimer (advanceTo t sys) = None"
  by (simp add: advanceTo_def)

text \<open>A store update that keeps the store Booting leaves the timer as it is.\<close>

lemma dispatch_keeps_timer:
  "isBooting (app sys) \<Longrightarrow> isBooting (f (app sys)) \<Longrightarrow>
   watchdogTimer (dispatch f sys) = watchdogTimer sys \<and> app (dispatch f sys) = f (app sys)"
  by (simp add: dispatch_def notify_def)

text \<open>A store update that leaves Booting clears the timer of a subscribed scene.\<close>

lemma dispatch_clears_timer:
  "isBooting (app sys) \<Longrightarrow> \<not> isBooting (f (app sys)) \<Longrightarrow> subscribed sys \<Longrightarrow> watchdogRef sys \<Longrightarrow>
   watchdogTimer (dispatch f sys) = None \<and> app (dispatch f sys) = f (app sys)"
  by (simp add: dispatch_def notify_def)

text \<open>
  After a single run of the effects (a production build) the watchdog does
  what it is meant to do: Booting before the deadline, Degraded with
  BOOT_TIMEOUT from the deadline on and unchanged afterwards; a completion
  before the deadline stays, and the callback would change nothing.
\<close>

lemma watchdog_single_mount:
  assumes "\<not> initGuardRef sys" and "isBooting (app sys)"
    and "t0 < clock sys + 8000" and "clock sys + 8000 \<le> t" and "t \<le> t'"
  shows "phase (app (advanceTo t0 (mountScene False sys))) = Booting
       \<and> app (advanceTo t (mountScene False sys)) = bootFail BOOT_TIMEOUT (app sys)
       \<and> phase (app (advanceTo t (mountScene False sys))) = Degraded
       \<and> bootError (app (advanceTo t (mountScene False sys))) = Some BOOT_TIMEOUT
       \<and> safeMode (app (advanceTo t (mountScene False sys)))
       \<and> watchdogTimer (advanceTo t (mountScene False sys)) = None
       \<and> app (advanceTo t' (advanceTo t (mountScene False sys)))
           = app (advanceTo t (mountScene False sys))
       \<and> app (advanceTo t' (dispatch bootComplete (advanceTo t0 (mountScene False sys))))
           = bootComplete (app sys)
       \<and> phase (bootComplete (app sys)) \<noteq> Booting"
proof -
  let ?m = "mountScene False sys"
  note m = mountScene_once [OF assms(1)]
  have before: "app (advanceTo t0 ?m) = app sys"
    and pending: "watchdogTimer (advanceTo t0 ?m) = Some (clock sys + 8000)"
    using watchdog_not_due [of ?m "clock sys + 8000" t0] m assms(3) by simp_all
  have fired: "app (advanceTo t ?m) = bootFail BOOT_TIMEOUT (app sys)"
    and gone: "watchdogTimer (advanceTo t ?m) = None"
    using watchdog_fires_when_due [of ?m "clock sys + 8000" t] m assms(2,4) by simp_all
  have later: "app (advanceTo t' (advanceTo t ?m)) = app (advanceTo t ?m)"
    using advanceTo_no_timer gone by blast
  have sub: "subscribed (advanceTo t0 ?m)" "watchdogRef (advanceTo t0 ?m)"
    using m assms(3) by (simp_all add: advanceTo_def)
  have completed: "app (dispatch bootComplete (advanceTo t0 ?m)) = bootComplete (app sys)"
    and cleared: "watchdogTimer (dispatch bootComplete (advanceTo t0 ?m)) = None"
    using dispatch_clears_timer [of "advanceTo t0 ?m" bootComplete] before sub assms(2)
    by (simp_all add: store_defs)
  have stays: "app (advanceTo t' (dispatch bootComplete (advanceTo t0 ?m))) = bootComplete (app sys)"
    using advanceTo_no_timer cleared completed by metis
  show ?thesis
    using before fired gone later stays assms(2)
    by (simp add: phase_def store_defs)
qed

text \<open>
  Claim C2 on the code, in a development build: the scene is mounted at time 0
  inside \<open>React.StrictMode\<close>, with the initial store and no signal afterwards.
  No timer is pending after the mount although the init guard is set, so the
  store is still Booting at the deadline of 8000 ms and at any later time. The
  same start with a single run of the effects is Degraded at 8000 ms.
\<close>

theorem watchdog_disarmed_by_strict_mode:
  "watchdogTimer (mountScene True (bootSys 0)) = None
   \<and> initGuardRef (mountScene True (bootSys 0))
   \<and> phase (app (advanceTo 8000 (mountScene True (bootSys 0)))) = Booting
   \<and> phase (app (advanceTo 100000 (mountScene True (bootSys 0)))) = Booting
   \<and> phase (app (advanceTo 8000 (mountScene False (bootSys 0)))) = Degraded
   \<and> bootError (app (advanceTo 8000 (mountScene False (bootSys 0)))) = Some BOOT_TIMEOUT"
  by (simp add: scene_defs advanceTo_def watchdogCallback_def dispatch_def notify_def
      bootSys_def initialState_def store_defs phase_def)

text \<open>
  The watchdog of the JavaScript store is armed by \<open>initializeBoot\<close> when the
  module is loaded, outside any effect; it fires and is cleared alike.
\<close>

lemma watchdog_js_fires:
  "timers_js sys = [] \<Longrightarrow> isBooting (app_js sys) \<Longrightarrow> clock_js sys + 8000 \<le> t \<Longrightarrow>
   app_js (advanceTo_js t (initializeBoot_js ''https:'' sys)) = bootFail_js BOOT_TIMEOUT (app_js sys)
   \<and> timers_js (advanceTo_js t (initializeBoot_js ''https:'' sys)) = []"
  by (simp add: advanceTo_js_def initializeBoot_js_def watchdogCallback_js_def dispatch_js_def
      store_defs Let_def)

lemma watchdog_js_cleared:
  "timers_js sys = [] \<Longrightarrow> isBooting (app_js sys) \<Longrightarrow>
   app_js (advanceTo_js t (dispatch_js bootComplete_js (initializeBoot_js ''https:'' sys)))
     = bootComplete_js (app_js sys)"
  by (simp add: advanceTo_js_def initializeBoot_js_def watchdogCallback_js_def dispatch_js_def
      store_defs Let_def)

lemma watchdogCallback_js_not_booting:
  "\<not> isBooting (app_js sys) \<Longrightarrow> watchdogCallback_js sys = sys"
  by (simp add: watchdogCallback_js_def)

section \<open>Retry and continue\<close>

lemma retry_resets:
  "isBooting (app (retry protocol sys)) \<and> bootError (app (retry protocol sys)) = None
   \<and> \<not> safeMode (app (retry protocol sys))
   \<and> watchdogTimer (retry protocol sys) = watchdogTimer sys"
  by (simp add: retry_def retryBoot_def initializeBoot_def dispatch_def notify_def)

text \<open>
  Claim C3 at a concrete run: the scene is mounted at time 0 (a single run of
  the effects), the watchdog fires at 8000 and the store is Degraded at 9000. Retry then resets the three
  boot fields, but no timer is pending afterwards, mounting effects do not arm
  one again (the init guard is set), and with no completion signal the store is
  still Booting at time 100000.
\<close>

theorem retry_does_not_rearm_watchdog:
  "phase (app (advanceTo 9000 (mountScene False (bootSys 0)))) = Degraded
   \<and> watchdogTimer (retry ''https:'' (advanceTo 9000 (mountScene False (bootSys 0)))) = None
   \<and> watchdogTimer (mountScene False (retry ''https:'' (advanceTo 9000 (mountScene False (bootSys 0))))) = None
   \<and> phase (app (advanceTo 100000 (retry ''https:'' (advanceTo 9000 (mountScene False (bootSys 0))))))
       = Booting"
  by (simp add: retry_def retryBoot_def initializeBoot_def dispatch_def notify_def
      advanceTo_def scene_defs bootSys_def initialState_def
      watchdogCallback_def store_defs phase_def)

text \<open>
  Claim C4 on the code: the "Continue in Safe Mode" button leaves the error
  panel (no boot error, not booting) but passes \<open>false\<close> as the safe-mode
  argument, so safe mode is off afterwards, in every state.
\<close>

theorem continueInSafeMode_leaves_safe_mode:
  "isBooting (continueInSafeMode s) = False
   \<and> bootError (continueInSafeMode s) = None
   \<and> phase (continueInSafeMode s) = Running
   \<and> safeMode (continueInSafeMode s) = False"
  by (simp add: continueInSafeMode_def setBoot_def phase_def)

text \<open>
  Claim C10, as stated: retryBoot leaves every field but the three boot fields
  unchanged, the protocol warning among them. In the TypeScript store retryBoot
  ends by calling initializeBoot, which raises the protocol warning on a page
  opened through \<open>file:\<close>.
\<close>

theorem retryBoot_protocolWarning_counterexample:
  "protocolWarning (retryBoot ''file:'' (initialState 0)) \<noteq> protocolWarning (initialState 0)"
  by (simp add: retryBoot_def initializeBoot_def initialState_def)

text \<open>
  Claim C10, amended: in both stores retryBoot leaves depth, isDiving,
  canResurface, activePanel, hoveredObject, showUI, welcomeMessageShown,
  lowPowerMode, prefersReducedMotion, isMobile, seed, objectsVisible and theme
  unchanged. The JavaScript store's retryBoot leaves the protocol warning
  unchanged too; the TypeScript store's raises it when the protocol is
  \<open>file:\<close> and never lowers it.
\<close>

theorem retryBoot_frame:
  "uiFields (retryBoot protocol s) = uiFields s
   \<and> protocolWarning (retryBoot protocol s) = (protocolWarning s \<or> protocol = ''file:'')
   \<and> uiFields (retryBoot_js s) = uiFields s
   \<and> protocolWarning (retryBoot_js s) = protocolWarning s"
  by (simp add: retryBoot_def initializeBoot_def retryBoot_js_def uiFields_def)

section \<open>The guard\<close>

lemmas guard_defs = withTimeout_def withTimeout_run_def eventOrder_def settle_def clearTimeout_def

lemma withTimeout_settled: "withTimeout rt (Settled r) ms label = Some r"
  by (cases r) (simp_all add: guard_defs)

lemma withTimeout_never: "withTimeout rt NeverSettles ms label = Some (Rejected (Error label))"
  by (simp add: guard_defs)

lemma withTimeout_op_first:
  "t < timerDelay rt ms \<or> (t = timerDelay rt ms \<and> first) \<Longrightarrow>
   withTimeout rt (SettlesAt t first r) ms label = Some r"
  by (cases r) (simp_all add: guard_defs)

lemma withTimeout_timer_first:
  "timerDelay rt ms < t \<or> (t = timerDelay rt ms \<and> \<not> first) \<Longrightarrow>
   withTimeout rt (SettlesAt t first r) ms label = Some (Rejected (Error label))"
  by (cases r) (auto simp add: guard_defs)

text \<open>The guard always settles: the timer fires unless the operation came first.\<close>

lemma withTimeout_settles: "\<exists>r. withTimeout rt p ms label = Some r"
proof (cases p)
  case (Settled r)
  then show ?thesis by (simp add: withTimeout_settled)
next
  case (SettlesAt t first r)
  show ?thesis
  proof (cases "t < timerDelay rt ms \<or> (t = timerDelay rt ms \<and> first)")
    case True
    then show ?thesis using SettlesAt withTimeout_op_first by blast
  next
    case False
    then have "timerDelay rt ms < t \<or> (t = timerDelay rt ms \<and> \<not> first)" by auto
    then show ?thesis using SettlesAt withTimeout_timer_first by blast
  qed
next
  case NeverSettles
  then show ?thesis by (simp add: withTimeout_never)
qed

subsection \<open>The delay of the timer\<close>

lemma toInt32_in_range:
  "- 2147483648 \<le> ms \<Longrightarrow> ms \<le> 2147483647 \<Longrightarrow> toInt32 ms = ms"
  by (simp add: toInt32_def)

text \<open>A deadline from 1 to \<open>2^31 - 1\<close> is the delay of the timer.\<close>

lemma timerDelay_in_range:
  assumes "0 < ms" and "ms \<le> 2147483647" and "int (minDelay rt) \<le> ms"
  shows "timerDelay rt ms = nat ms"
proof -
  have "toInt32 ms = ms" using assms(1,2) by (simp add: toInt32_in_range)
  then show ?thesis using assms by (cases rt) (simp_all add: timerDelay_def minDelay_def)
qed

text \<open>A deadline of zero or less, down to \<open>- 2^31\<close> in a browser, gives the smallest delay.\<close>

lemma timerDelay_nonpositive:
  assumes "ms \<le> 0" and "rt = Node \<or> - 2147483648 \<le> ms"
  shows "timerDelay rt ms = minDelay rt"
proof (cases rt)
  case (Browser least)
  then have "toInt32 ms = ms" using assms by (simp add: toInt32_in_range)
  then show ?thesis using Browser assms(1) by (simp add: timerDelay_def minDelay_def)
next
  case Node
  then show ?thesis using assms(1) by (simp add: timerDelay_def minDelay_def)
qed

text \<open>Outside these ranges the delay is not the deadline.\<close>

lemma timerDelay_out_of_range:
  "timerDelay (Browser 0) 2147483648 = 0 \<and> timerDelay Node 2147483648 = 1
   \<and> timerDelay (Browser 0) (- 2147483649) = 2147483647"
  by (simp add: timerDelay_def toInt32_def)

text \<open>
  Claim C5, as stated: for every positive deadline, an operation that settles
  before the deadline gives the guard its own outcome. A deadline of \<open>2^31\<close> ms
  is positive, but the timer then fires at once (after 1 ms on Node), before an
  operation that settles after 50 ms, and the guard rejects.
\<close>

theorem withTimeout_overflow_counterexample:
  "(0::int) < 2147483648 \<and> int 50 < 2147483648
   \<and> withTimeout (Browser 0) (SettlesAt 50 False (Fulfilled (7::nat))) 2147483648 ''TIMEOUT''
        \<noteq> Some (Fulfilled 7)
   \<and> withTimeout Node (SettlesAt 50 False (Fulfilled (7::nat))) 2147483648 ''TIMEOUT''
        \<noteq> Some (Fulfilled 7)"
  by (simp add: guard_defs timerDelay_def toInt32_def)

text \<open>
  Claim C5, amended: for every positive deadline of at most 2147483647 ms that
  is not below the smallest delay of the runtime, an operation that is already settled or settles before the deadline
  gives the guard its own outcome, value or error, unchanged; an operation
  that settles after the deadline, or never, makes the guard reject with an
  error whose message is the caller's label.
\<close>

theorem withTimeout_race:
  assumes "0 < ms" and "ms \<le> 2147483647" and "int (minDelay rt) \<le> ms"
  shows "withTimeout rt (Settled (r :: 'a settled)) ms label = Some r
       \<and> (int t < ms \<longrightarrow> withTimeout rt (SettlesAt t first r) ms label = Some r)
       \<and> (ms < int t \<longrightarrow>
            withTimeout rt (SettlesAt t first r) ms label = Some (Rejected (Error label)))
       \<and> withTimeout rt (NeverSettles :: 'a promise) ms label = Some (Rejected (Error label))"
proof -
  have d: "timerDelay rt ms = nat ms"
    using assms by (rule timerDelay_in_range)
  have lt: "int t < ms \<longleftrightarrow> t < nat ms" and gt: "ms < int t \<longleftrightarrow> nat ms < t"
    using assms(1) by linarith+
  have a: "int t < ms \<longrightarrow> withTimeout rt (SettlesAt t first r) ms label = Some r"
    using withTimeout_op_first [of t rt ms first r label] by (simp add: d lt)
  have b: "ms < int t \<longrightarrow>
      withTimeout rt (SettlesAt t first r) ms label = Some (Rejected (Error label))"
    using withTimeout_timer_first [of rt ms t first r label] by (simp add: d gt)
  show ?thesis
    using a b by (simp add: withTimeout_settled withTimeout_never)
qed

theorem withTimeout_race_witness:
  "(0::int) < 10
   \<and> withTimeout (Browser 0) (SettlesAt 50 False (Fulfilled (7::nat))) 10 ''TIMEOUT''
        = Some (Rejected (Error ''TIMEOUT''))
   \<and> withTimeout (Browser 0) (SettlesAt 5 False (Fulfilled (7::nat))) 50 ''TIMEOUT''
        = Some (Fulfilled 7)
   \<and> withTimeout Node (SettlesAt 5 False (Rejected (Error ''boom'') :: nat settled)) 50 ''TIMEOUT''
        = Some (Rejected (Error ''boom''))"
  using withTimeout_race [of 10 "Browser 0" "Fulfilled (7::nat)" "''TIMEOUT''" 50 False]
    withTimeout_race [of 50 "Browser 0" "Fulfilled (7::nat)" "''TIMEOUT''" 5 False]
    withTimeout_race [of 50 Node "Rejected (Error ''boom'') :: nat settled" "''TIMEOUT''" 5 False]
  by (simp add: minDelay_def)

text \<open>
  Claim C7, as stated: with a deadline of zero or less the guard rejects with
  the timeout error whatever the operation does. An operation that is already
  settled wins against a zero deadline: its reaction runs before the timer.
\<close>

theorem withTimeout_zero_deadline_counterexample:
  "withTimeout (Browser 0) (Settled (Fulfilled (7::nat))) 0 ''TIMEOUT''
     \<noteq> Some (Rejected (Error ''TIMEOUT''))"
  by (simp add: withTimeout_settled)

text \<open>
  Claim C7, amended: with a deadline of zero or less (in a browser: not below
  \<open>- 2^31\<close>) the guard acts as with a deadline of zero, and its timer gets the
  smallest delay of the runtime: the browser's floor (0 ms by the HTML
  standard), 1 ms on Node. The guard rejects with the timeout error when
  the operation settles after that delay or never, or at that delay in a task
  behind the timer's; an operation that is already settled, or settles before
  that delay, or at it in a task ahead of the timer's, still gives the guard
  its own outcome.
\<close>

theorem withTimeout_nonpositive_deadline:
  assumes "ms \<le> 0" and "rt = Node \<or> - 2147483648 \<le> ms"
  shows "withTimeout rt (p :: 'a promise) ms label = withTimeout rt p 0 label
       \<and> timerDelay rt ms = minDelay rt
       \<and> withTimeout rt (Settled (r :: 'a settled)) ms label = Some r
       \<and> (t < minDelay rt \<or> (t = minDelay rt \<and> first) \<longrightarrow>
            withTimeout rt (SettlesAt t first r) ms label = Some r)
       \<and> (minDelay rt < t \<or> (t = minDelay rt \<and> \<not> first) \<longrightarrow>
            withTimeout rt (SettlesAt t first r) ms label = Some (Rejected (Error label)))
       \<and> withTimeout rt (NeverSettles :: 'a promise) ms label = Some (Rejected (Error label))"
proof -
  have d: "timerDelay rt ms = minDelay rt"
    using assms by (rule timerDelay_nonpositive)
  have d0: "timerDelay rt 0 = minDelay rt"
    by (rule timerDelay_nonpositive) simp_all
  have "eventOrder rt p ms = eventOrder rt p 0"
    by (cases p) (simp_all add: eventOrder_def d d0)
  then have same: "withTimeout rt p ms label = withTimeout rt p 0 label"
    by (simp add: withTimeout_def)
  have a: "t < minDelay rt \<or> (t = minDelay rt \<and> first) \<longrightarrow>
      withTimeout rt (SettlesAt t first r) ms label = Some r"
    using withTimeout_op_first [of t rt ms first r label] by (simp add: d)
  have b: "minDelay rt < t \<or> (t = minDelay rt \<and> \<not> first) \<longrightarrow>
      withTimeout rt (SettlesAt t first r) ms label = Some (Rejected (Error label))"
    using withTimeout_timer_first [of rt ms t first r label] by (simp add: d)
  show ?thesis
    using same d a b by (simp add: withTimeout_settled withTimeout_never)
qed

theorem withTimeout_nonpositive_deadline_witness:
  "(-5::int) \<le> 0
   \<and> withTimeout (Browser 0) (Settled (Fulfilled (7::nat))) (-5) ''TIMEOUT'' = Some (Fulfilled 7)
   \<and> withTimeout (Browser 0) (SettlesAt 3 True (Fulfilled (7::nat))) (-5) ''TIMEOUT''
        = Some (Rejected (Error ''TIMEOUT''))
   \<and> withTimeout Node (SettlesAt 1 True (Fulfilled (7::nat))) (-5) ''TIMEOUT''
        = Some (Fulfilled 7)
   \<and> withTimeout Node (NeverSettles :: nat promise) (-5) ''TIMEOUT''
        = Some (Rejected (Error ''TIMEOUT''))"
  using withTimeout_nonpositive_deadline
          [of "-5" "Browser 0" "NeverSettles :: nat promise" "''TIMEOUT''" "Fulfilled (7::nat)" 3 True]
    withTimeout_nonpositive_deadline
          [of "-5" Node "NeverSettles :: nat promise" "''TIMEOUT''" "Fulfilled (7::nat)" 1 True]
  by (simp add: withTimeout_never minDelay_def)

text \<open>
  Below \<open>- 2^31\<close> a browser wraps the delay to a positive one, and an operation
  that settles after 50 ms wins.
\<close>

lemma withTimeout_wrapped_deadline:
  "withTimeout (Browser 0) (SettlesAt 50 False (Fulfilled (7::nat))) (- 2147483649) ''TIMEOUT''
     = Some (Fulfilled 7)"
  by (simp add: guard_defs timerDelay_def toInt32_def)

section \<open>Batch loading\<close>

text \<open>
  The promise given to the guard is settled from the start, so the guard never
  times out on it, whatever the timeout and the runtime: its outcome is that of
  \<open>preload\<close>.
\<close>

lemma preload_guard_outcome:
  "withTimeout rt (preloadPromise preload path) ms label
     = Some (case preload path of None \<Rightarrow> Fulfilled () | Some e \<Rightarrow> Rejected e)"
  by (cases "preload path") (simp_all add: preloadPromise_def withTimeout_settled)

lemma safePreloadGLTF_returns:
  "\<exists>s'. safePreloadGLTF rt preload path ms s = Some (preload path = None, s')"
  by (cases "preload path") (simp_all add: safePreloadGLTF_def preload_guard_outcome)

lemma loadOutcome_preload:
  "loadOutcome rt preload ms s path = Some (preload path = None)"
  using safePreloadGLTF_returns [of rt preload path ms s]
  by (auto simp add: loadOutcome_def)

lemma preloadEach_returns:
  "\<exists>s'. preloadEach rt preload paths ms s = Some (map (\<lambda>path. preload path = None) paths, s')"
proof (induction paths arbitrary: s)
  case Nil
  then show ?case by simp
next
  case (Cons path paths)
  obtain s1 where s1: "safePreloadGLTF rt preload path ms s = Some (preload path = None, s1)"
    using safePreloadGLTF_returns by blast
  obtain s2 where s2: "preloadEach rt preload paths ms s1
      = Some (map (\<lambda>path. preload path = None) paths, s2)"
    using Cons.IH by blast
  show ?case
    by (simp add: s1 s2)
qed

lemma zip_map_filter_fst:
  "map fst (filter (\<lambda>pr. P (snd pr)) (zip xs (map f xs))) = filter (\<lambda>x. P (f x)) xs"
  by (induction xs) simp_all

text \<open>
  Claim C8: for every list of paths \<open>batchPreloadGLTF\<close> returns (it never
  rejects and never hangs). \<open>success\<close> holds exactly the paths whose guarded
  load, run on its own, resolves to true, \<open>failed\<close> exactly those whose load
  resolves to false, in the order of the input; the two lists together have as
  many entries as the input. A load fails exactly when \<open>preload\<close> throws for
  its path, and that leaves the other loads as they are.
\<close>

theorem batchPreloadGLTF_partition:
  "\<exists>success failed s'.
     batchPreloadGLTF rt preload paths ms allowPartialFailure s = Some ((success, failed), s')
     \<and> success = filter (\<lambda>path. loadOutcome rt preload ms s path = Some True) paths
     \<and> failed = filter (\<lambda>path. loadOutcome rt preload ms s path = Some False) paths
     \<and> success = filter (\<lambda>path. preload path = None) paths
     \<and> failed = filter (\<lambda>path. preload path \<noteq> None) paths
     \<and> length success + length failed = length paths"
proof -
  let ?ok = "\<lambda>path. preload path = None"
  obtain s1 where s1: "preloadEach rt preload paths ms s = Some (map ?ok paths, s1)"
    using preloadEach_returns by blast
  have a: "map fst (filter snd (zip paths (map ?ok paths))) = filter ?ok paths"
    using zip_map_filter_fst [of "\<lambda>b. b" paths ?ok] by simp
  have b: "map fst (filter (\<lambda>pr. \<not> snd pr) (zip paths (map ?ok paths)))
             = filter (\<lambda>path. preload path \<noteq> None) paths"
    using zip_map_filter_fst [of "\<lambda>b. \<not> b" paths ?ok] by simp
  have c: "length (filter ?ok paths) + length (filter (\<lambda>path. preload path \<noteq> None) paths)
             = length paths"
    using sum_length_filter_compl [of ?ok paths] by simp
  show ?thesis
    using c by (simp add: batchPreloadGLTF_def s1 a b Let_def loadOutcome_preload)
qed

theorem batchPreloadGLTF_partition_witness:
  "\<exists>s'. batchPreloadGLTF (Browser 0) examplePreload
           [''/models/ring.glb'', ''/models/chest.glb'', ''/models/bottle.glb''] 5000 True
           (initialState 0)
         = Some (([''/models/ring.glb'', ''/models/bottle.glb''], [''/models/chest.glb'']), s')"
  using batchPreloadGLTF_partition [of "Browser 0" examplePreload
           "[''/models/ring.glb'', ''/models/chest.glb'', ''/models/bottle.glb'']" 5000 True
           "initialState 0"]
  by (auto simp add: examplePreload_def)

section \<open>The renderer check\<close>

lemma canvasChecks_fail_cases:
  "\<not> glHasGetContext c \<or> getContext c = Returns None \<or> \<not> cameraValid c
   \<or> (\<exists>ctx e. getContext c = Returns (Some ctx)
         \<and> (clearColor ctx = Throws e \<or> clear ctx = Throws e))
   \<Longrightarrow> canvasChecks dev c \<noteq> Returns ()"
  by (auto simp add: canvasChecks_def split: js.splits option.splits)

text \<open>
  Claim C9: when the checks of the handler fail, for whatever reason (no
  context, a throwing clear, an invalid camera among them), the handler's
  effect on the store is exactly one failure signal with WEBGL_FAIL: boot
  error WEBGL_FAIL, safe mode on, phase Degraded. When they pass, its effect is
  exactly one completion signal, which leaves boot error and safe mode as they
  were. Either way the store is out of Booting.
\<close>

theorem handleCanvasCreated_outcome:
  "(canvasChecks dev c = Returns () \<longrightarrow>
       handleCanvasCreated dev c s = bootComplete s
       \<and> bootError (handleCanvasCreated dev c s) = bootError s
       \<and> safeMode (handleCanvasCreated dev c s) = safeMode s)
   \<and> (canvasChecks dev c \<noteq> Returns () \<longrightarrow>
       handleCanvasCreated dev c s = bootFail WEBGL_FAIL s
       \<and> bootError (handleCanvasCreated dev c s) = Some WEBGL_FAIL
       \<and> safeMode (handleCanvasCreated dev c s)
       \<and> phase (handleCanvasCreated dev c s) = Degraded)
   \<and> (\<not> glHasGetContext c \<or> getContext c = Returns None \<or> \<not> cameraValid c
        \<or> (\<exists>ctx e. getContext c = Returns (Some ctx)
              \<and> (clearColor ctx = Throws e \<or> clear ctx = Throws e))
       \<longrightarrow> canvasChecks dev c \<noteq> Returns ())
   \<and> \<not> isBooting (handleCanvasCreated dev c s)"
proof -
  have "\<not> isBooting (handleCanvasCreated dev c s)"
    by (cases "canvasChecks dev c") (simp_all add: handleCanvasCreated_def store_defs)
  moreover have "canvasChecks dev c = Returns () \<longrightarrow>
       handleCanvasCreated dev c s = bootComplete s
       \<and> bootError (handleCanvasCreated dev c s) = bootError s
       \<and> safeMode (handleCanvasCreated dev c s) = safeMode s"
    by (simp add: handleCanvasCreated_def store_defs)
  moreover have "canvasChecks dev c \<noteq> Returns () \<longrightarrow>
       handleCanvasCreated dev c s = bootFail WEBGL_FAIL s
       \<and> bootError (handleCanvasCreated dev c s) = Some WEBGL_FAIL
       \<and> safeMode (handleCanvasCreated dev c s)
       \<and> phase (handleCanvasCreated dev c s) = Degraded"
    by (cases "canvasChecks dev c") (simp_all add: handleCanvasCreated_def store_defs phase_def)
  ultimately show ?thesis
    using canvasChecks_fail_cases [of c dev] by blast
qed

theorem handleCanvasCreated_outcome_witness:
  "handleCanvasCreated False
      \<lparr>glHasGetContext = True, getContext = Returns (Some goodContext), cameraValid = True\<rparr>
      (initialState 0) = bootComplete (initialState 0)
   \<and> handleCanvasCreated False
      \<lparr>glHasGetContext = True, getContext = Returns (Some lostContext), cameraValid = True\<rparr>
      (initialState 0) = bootFail WEBGL_FAIL (initialState 0)
   \<and> phase (handleCanvasCreated False
      \<lparr>glHasGetContext = True, getContext = Returns None, cameraValid = True\<rparr>
      (initialState 0)) = Degraded"
  using handleCanvasCreated_outcome [of False
      "\<lparr>glHasGetContext = True, getContext = Returns (Some goodContext), cameraValid = True\<rparr>"
      "initialState 0"]
    handleCanvasCreated_outcome [of False
      "\<lparr>glHasGetContext = True, getContext = Returns (Some lostContext), cameraValid = True\<rparr>"
      "initialState 0"]
    handleCanvasCreated_outcome [of False
      "\<lparr>glHasGetContext = True, getContext = Returns None, cameraValid = True\<rparr>"
      "initialState 0"]
  by (simp add: canvasChecks_def goodContext_def lostContext_def handleCanvasCreated_def
      store_defs phase_def)

section \<open>Instance counts\<close>

text \<open>
  Claim C6, as stated: every count under safe mode is at most the count of a
  low-power device without safe mode. The bubble count does not look at safe
  mode: a desktop in safe mode gets 150 bubbles, a low-power device 30.
\<close>

theorem bubbleCount_safeMode_counterexample:
  "\<not> bubbleCount ((initialState 0)\<lparr>safeMode := True\<rparr>)
       \<le> bubbleCount ((initialState 0)\<lparr>lowPowerMode := True\<rparr>)"
  by (simp add: bubbleCount_def initialState_def)

text \<open>
  Claim C6, amended: for the two object counts, the count under safe mode (any
  device) is at most the count of a low-power device without safe mode, which
  is at most the count of a device that is neither; for the bubble count the
  low-power count is at most the count of a device that is not low-power.
\<close>

theorem counts_monotone:
  assumes "safeMode sSafe" and "\<not> safeMode sLow" and "lowPowerMode sLow"
    and "\<not> safeMode sNormal" and "\<not> lowPowerMode sNormal"
  shows "mainObjectCount sSafe \<le> mainObjectCount sLow
       \<and> mainObjectCount sLow \<le> mainObjectCount sNormal
       \<and> decorativeCount sSafe \<le> decorativeCount sLow
       \<and> decorativeCount sLow \<le> decorativeCount sNormal
       \<and> bubbleCount sLow \<le> bubbleCount sNormal"
  using assms by (simp add: mainObjectCount_def decorativeCount_def bubbleCount_def)

theorem counts_monotone_witness:
  "mainObjectCount ((initialState 0)\<lparr>safeMode := True\<rparr>)
      \<le> mainObjectCount ((initialState 0)\<lparr>lowPowerMode := True\<rparr>)
   \<and> decorativeCount ((initialState 0)\<lparr>safeMode := True\<rparr>)
      \<le> decorativeCount ((initialState 0)\<lparr>lowPowerMode := True\<rparr>)
   \<and> decorativeCount ((initialState 0)\<lparr>lowPowerMode := True\<rparr>)
      \<le> decorativeCount (initialState 0)
   \<and> bubbleCount ((initialState 0)\<lparr>lowPowerMode := True\<rparr>) \<le> bubbleCount (initialState 0)"
proof -
  have h: "safeMode ((initialState 0)\<lparr>safeMode := True\<rparr>)"
    "\<not> safeMode ((initialState 0)\<lparr>lowPowerMode := True\<rparr>)"
    "lowPowerMode ((initialState 0)\<lparr>lowPowerMode := True\<rparr>)"
    "\<not> safeMode (initialState 0)" "\<not> lowPowerMode (initialState 0)"
    by (simp_all add: initialState_def)
  show ?thesis
    using counts_monotone [OF h] by simp
qed

end
